theory Spec2Isabelle
  imports Main "HOL-Library.Word"
begin

section \<open>The ride chat screen: data model\<close>

text \<open>
  The development embeds the event handlers of \<^verbatim>\<open>src/screens/ride/ChatScreen.tsx\<close>.
  A JavaScript string is a sequence of UTF-16 code units, so \<^verbatim>\<open>text.length\<close> is the
  length of the list and \<^verbatim>\<open>trim()\<close> strips the code units ECMAScript calls white space
  or line terminators. A string is truthy exactly when it is not empty.
\<close>

type_synonym js_string = "16 word list"

definition js :: "string \<Rightarrow> js_string" where
  "js s = map (\<lambda>c. of_nat (of_char c)) s"

definition is_js_whitespace :: "16 word \<Rightarrow> bool" where
  "is_js_whitespace c \<longleftrightarrow>
     c = 0x9 \<or> c = 0xA \<or> c = 0xB \<or> c = 0xC \<or> c = 0xD \<or> c = 0x20 \<or> c = 0xA0 \<or>
     c = 0x1680 \<or> (0x2000 \<le> c \<and> c \<le> 0x200A) \<or> c = 0x2028 \<or> c = 0x2029 \<or>
     c = 0x202F \<or> c = 0x205F \<or> c = 0x3000 \<or> c = 0xFEFF"

definition trim :: "js_string \<Rightarrow> js_string" where
  "trim s = rev (dropWhile is_js_whitespace (rev (dropWhile is_js_whitespace s)))"

text \<open>\<^verbatim>\<open>senderType: 'user' | 'driver'\<close>\<close>

datatype sender_type = User | Driver

text \<open>\<^verbatim>\<open>interface ChatMessage\<close>; the field \<^verbatim>\<open>id\<close> is \<open>msg_id\<close> here.\<close>

record ChatMessage =
  msg_id :: js_string
  rideId :: js_string
  senderId :: js_string
  senderType :: sender_type
  message :: js_string
  timestamp :: js_string
  isRead :: bool

text \<open>
  What the component takes from its surroundings and never changes while the listeners
  are installed: \<^verbatim>\<open>userId\<close> (from the token), \<^verbatim>\<open>rideId = ride?.rideId || ''\<close> and
  \<^verbatim>\<open>driver?.name\<close>.
\<close>

record chat_props =
  userId :: js_string
  ride_rideId :: js_string
  driver_name :: "js_string option"

text \<open>
  The calls into \<^verbatim>\<open>utils/socket\<close> and the notification helper, recorded in the order
  they are made. The arguments are the fields of the object literal passed.
\<close>

datatype command =
    SendChatMessage js_string js_string sender_type js_string
  | GetChatHistory js_string js_string sender_type
  | MarkMessagesAsRead js_string js_string sender_type
  | SendTypingStart js_string js_string sender_type
  | SendTypingStop js_string js_string sender_type
  | SendChatNotification js_string js_string js_string js_string js_string js_string js_string nat

text \<open>
  The two callbacks given to \<^verbatim>\<open>setTimeout\<close>. The one of \<^verbatim>\<open>loadChatHistory\<close> reads
  \<^verbatim>\<open>isLoading\<close> from the closure it was created in, so it carries that value.
\<close>

datatype timer_callback = HistoryTimeout bool | TypingStopTimeout

text \<open>
  The component's state (\<^verbatim>\<open>useState\<close> and \<^verbatim>\<open>useRef\<close>), the timers that are set and
  have neither fired nor been cleared, and the commands issued so far. A timer handle is
  an opaque, truthy \<^verbatim>\<open>NodeJS.Timeout\<close>, identified by a number.
\<close>

record chat_state =
  messages :: "ChatMessage list"
  newMessage :: js_string
  isDriverTyping :: bool
  isLoading :: bool
  typingTimeoutRef :: "nat option"
  pendingTimers :: "(nat \<times> timer_callback) list"
  nextTimerId :: nat
  outbox :: "command list"

definition init_state :: chat_state where
  "init_state = \<lparr>messages = [], newMessage = [], isDriverTyping = False, isLoading = True,
     typingTimeoutRef = None, pendingTimers = [], nextTimerId = 1, outbox = []\<rparr>"

section \<open>Timers and outbound calls\<close>

definition emit :: "command \<Rightarrow> chat_state \<Rightarrow> chat_state" where
  "emit c s = s\<lparr>outbox := outbox s @ [c]\<rparr>"

definition setTimeout :: "timer_callback \<Rightarrow> chat_state \<Rightarrow> nat \<times> chat_state" where
  "setTimeout cb s =
     (nextTimerId s,
      s\<lparr>pendingTimers := pendingTimers s @ [(nextTimerId s, cb)],
        nextTimerId := Suc (nextTimerId s)\<rparr>)"

definition clearTimeout :: "nat \<Rightarrow> chat_state \<Rightarrow> chat_state" where
  "clearTimeout t s = s\<lparr>pendingTimers := filter (\<lambda>p. fst p \<noteq> t) (pendingTimers s)\<rparr>"

definition ids_set :: "chat_props \<Rightarrow> bool" where
  "ids_set cfg \<longleftrightarrow> userId cfg \<noteq> [] \<and> ride_rideId cfg \<noteq> []"

text \<open>\<^verbatim>\<open>driver?.name || 'Pilot'\<close>\<close>

definition senderName :: "chat_props \<Rightarrow> js_string" where
  "senderName cfg =
     (case driver_name cfg of
        None \<Rightarrow> js ''Pilot''
      | Some n \<Rightarrow> if n = [] then js ''Pilot'' else n)"

section \<open>The socket listeners\<close>

text \<open>
  \<^verbatim>\<open>onChatMessage\<close>: append the message, and for a driver's message send the
  notification and mark the messages read.
\<close>

definition onChatMessage :: "chat_props \<Rightarrow> ChatMessage \<Rightarrow> chat_state \<Rightarrow> chat_state" where
  "onChatMessage cfg m s =
     (let s1 = s\<lparr>messages := messages s @ [m]\<rparr> in
      if senderType m = Driver then
        emit (MarkMessagesAsRead (rideId m) (userId cfg) User)
          (emit (SendChatNotification (rideId m) (senderId m) (senderName cfg) (message m)
                   (js ''text'') (js ''high'') (js ''default'') 1) s1)
      else s1)"

text \<open>
  \<^verbatim>\<open>onChatHistory\<close>: the payload \<^verbatim>\<open>data\<close> may be missing, and so may its field
  \<^verbatim>\<open>messages\<close>; an array, even an empty one, is truthy.
\<close>

type_synonym chat_history_data = "ChatMessage list option"

definition onChatHistory :: "chat_history_data option \<Rightarrow> chat_state \<Rightarrow> chat_state" where
  "onChatHistory data s =
     (case data of
        Some (Some ms) \<Rightarrow> s\<lparr>messages := ms, isLoading := False\<rparr>
      | _ \<Rightarrow> s\<lparr>messages := [], isLoading := False\<rparr>)"

text \<open>\<^verbatim>\<open>onTypingIndicator\<close>, on \<^verbatim>\<open>{senderType, isTyping}\<close>.\<close>

definition onTypingIndicator :: "sender_type \<Rightarrow> bool \<Rightarrow> chat_state \<Rightarrow> chat_state" where
  "onTypingIndicator st typing s =
     (if st = Driver then s\<lparr>isDriverTyping := typing\<rparr> else s)"

text \<open>\<^verbatim>\<open>onMessagesRead\<close>: the payload is logged and otherwise unused.\<close>

definition onMessagesRead :: "'d \<Rightarrow> chat_state \<Rightarrow> chat_state" where
  "onMessagesRead data s =
     s\<lparr>messages :=
         map (\<lambda>msg. msg\<lparr>isRead := (if senderType msg = User then True else isRead msg)\<rparr>)
           (messages s)\<rparr>"

section \<open>History loading and the user's actions\<close>

definition loadChatHistory :: "chat_props \<Rightarrow> chat_state \<Rightarrow> chat_state" where
  "loadChatHistory cfg s =
     (if ids_set cfg then
        snd (setTimeout (HistoryTimeout (isLoading s))
               (emit (GetChatHistory (ride_rideId cfg) (userId cfg) User) s))
      else s\<lparr>isLoading := False\<rparr>)"

definition handleSendMessage :: "chat_props \<Rightarrow> chat_state \<Rightarrow> chat_state" where
  "handleSendMessage cfg s =
     (if trim (newMessage s) \<noteq> [] \<and> ids_set cfg then
        (let s1 = emit (SendChatMessage (ride_rideId cfg) (userId cfg) User (trim (newMessage s))) s;
             s2 = s1\<lparr>newMessage := []\<rparr>;
             s3 = emit (SendTypingStop (ride_rideId cfg) (userId cfg) User) s2
         in case typingTimeoutRef s3 of
              Some t \<Rightarrow> (clearTimeout t s3)\<lparr>typingTimeoutRef := None\<rparr>
            | None \<Rightarrow> s3)
      else s)"

text \<open>
  \<^verbatim>\<open>handleQuickReply\<close> queues \<^verbatim>\<open>setNewMessage(reply)\<close> and then calls
  \<^verbatim>\<open>handleSendMessage\<close>, which still reads the \<^verbatim>\<open>newMessage\<close> of the current render;
  the state updates are applied in the order they were queued.
\<close>

definition handleQuickReply :: "chat_props \<Rightarrow> js_string \<Rightarrow> chat_state \<Rightarrow> chat_state" where
  "handleQuickReply cfg reply s =
     (if trim (newMessage s) \<noteq> [] \<and> ids_set cfg then handleSendMessage cfg s
      else s\<lparr>newMessage := reply\<rparr>)"

definition handleTyping :: "chat_props \<Rightarrow> js_string \<Rightarrow> chat_state \<Rightarrow> chat_state" where
  "handleTyping cfg text s =
     (let s1 = s\<lparr>newMessage := text\<rparr>;
          s2 = (if length text = 1 \<and> ids_set cfg
                then emit (SendTypingStart (ride_rideId cfg) (userId cfg) User) s1 else s1);
          s3 = (case typingTimeoutRef s2 of Some t \<Rightarrow> clearTimeout t s2 | None \<Rightarrow> s2);
          (t', s4) = setTimeout TypingStopTimeout s3
      in s4\<lparr>typingTimeoutRef := Some t'\<rparr>)"

section \<open>Timer expiry and event sequences\<close>

fun runCallback :: "chat_props \<Rightarrow> timer_callback \<Rightarrow> chat_state \<Rightarrow> chat_state" where
  "runCallback cfg (HistoryTimeout captured) s =
     (if captured then s\<lparr>isLoading := False\<rparr> else s)"
| "runCallback cfg TypingStopTimeout s =
     (if ids_set cfg then emit (SendTypingStop (ride_rideId cfg) (userId cfg) User) s else s)"

text \<open>A timer fires at most once: firing removes it, and a cleared timer never fires.\<close>

definition fireTimer :: "chat_props \<Rightarrow> nat \<Rightarrow> chat_state \<Rightarrow> chat_state" where
  "fireTimer cfg t s =
     (case map_of (pendingTimers s) t of
        None \<Rightarrow> s
      | Some cb \<Rightarrow> runCallback cfg cb (clearTimeout t s))"

datatype 'd event =
    ChatMessageEv ChatMessage
  | ChatHistoryEv "chat_history_data option"
  | TypingIndicatorEv sender_type bool
  | MessagesReadEv 'd
  | TimerFire nat
  | HandleTyping js_string
  | HandleSendMessage
  | HandleQuickReply js_string

fun step :: "chat_props \<Rightarrow> 'd event \<Rightarrow> chat_state \<Rightarrow> chat_state" where
  "step cfg (ChatMessageEv m) s = onChatMessage cfg m s"
| "step cfg (ChatHistoryEv d) s = onChatHistory d s"
| "step cfg (TypingIndicatorEv st b) s = onTypingIndicator st b s"
| "step cfg (MessagesReadEv d) s = onMessagesRead d s"
| "step cfg (TimerFire t) s = fireTimer cfg t s"
| "step cfg (HandleTyping text) s = handleTyping cfg text s"
| "step cfg HandleSendMessage s = handleSendMessage cfg s"
| "step cfg (HandleQuickReply r) s = handleQuickReply cfg r s"

fun run :: "chat_props \<Rightarrow> chat_state \<Rightarrow> 'd event list \<Rightarrow> chat_state" where
  "run cfg s [] = s"
| "run cfg s (e # es) = run cfg (step cfg e s) es"

text \<open>The events that deliver a history snapshot.\<close>

fun is_history :: "'d event \<Rightarrow> bool" where
  "is_history (ChatHistoryEv d) = True"
| "is_history e = False"

section \<open>Properties of the timer table\<close>

text \<open>
  The pending typing-stop timers, and two properties of the timer table that every state
  reached from the mounted component has: the only typing-stop timer that can be pending
  is the one \<^verbatim>\<open>typingTimeoutRef\<close> holds, and every pending timer was handed out before
  the next handle.
\<close>

definition stop_timers :: "chat_state \<Rightarrow> (nat \<times> timer_callback) list" where
  "stop_timers s = filter (\<lambda>p. snd p = TypingStopTimeout) (pendingTimers s)"

definition stop_timers_tracked :: "chat_state \<Rightarrow> bool" where
  "stop_timers_tracked s \<longleftrightarrow>
     (\<forall>p \<in> set (pendingTimers s).
        snd p = TypingStopTimeout \<longrightarrow> typingTimeoutRef s = Some (fst p))"

definition timers_fresh :: "chat_state \<Rightarrow> bool" where
  "timers_fresh s \<longleftrightarrow> (\<forall>p \<in> set (pendingTimers s). fst p < nextTimerId s)"

text \<open>
  The effect that installs the listeners ends with \<^verbatim>\<open>loadChatHistory()\<close>; it runs once
  \<^verbatim>\<open>userId\<close> and \<^verbatim>\<open>rideId\<close> are there, on the initial state of the component.
\<close>

definition mount :: "chat_props \<Rightarrow> chat_state" where
  "mount cfg = loadChatHistory cfg init_state"

text \<open>
  Two properties of the states after mounting, about the timer \<open>h\<close> that
  \<^verbatim>\<open>loadChatHistory\<close> set: handle \<open>h\<close> is never given to another timer; and, as long as
  neither a snapshot has arrived nor timer \<open>h\<close> has fired, the component is loading, timer
  \<open>h\<close> is pending and every other pending timer is a typing-stop timer.
\<close>

definition only_history_timer :: "nat \<Rightarrow> chat_state \<Rightarrow> bool" where
  "only_history_timer h s \<longleftrightarrow>
     h < nextTimerId s \<and>
     (\<forall>p \<in> set (pendingTimers s). fst p = h \<longrightarrow> snd p = HistoryTimeout True)"

definition awaiting_history :: "nat \<Rightarrow> chat_state \<Rightarrow> bool" where
  "awaiting_history h s \<longleftrightarrow>
     isLoading s \<and> h < nextTimerId s \<and> typingTimeoutRef s \<noteq> Some h \<and>
     map_of (pendingTimers s) h = Some (HistoryTimeout True) \<and>
     (\<forall>p \<in> set (pendingTimers s). fst p \<noteq> h \<longrightarrow> snd p = TypingStopTimeout)"

section \<open>Concrete inputs\<close>

definition example_props :: chat_props where
  "example_props = \<lparr>userId = js ''u1'', ride_rideId = js ''r1'', driver_name = None\<rparr>"

definition example_user_msg :: ChatMessage where
  "example_user_msg = \<lparr>msg_id = js ''m1'', rideId = js ''r1'', senderId = js ''u1'',
     senderType = User, message = js ''Hello'', timestamp = js ''2024-01-01T10:00:02Z'',
     isRead = False\<rparr>"

definition example_driver_msg :: ChatMessage where
  "example_driver_msg = \<lparr>msg_id = js ''m2'', rideId = js ''r1'', senderId = js ''d1'',
     senderType = Driver, message = js ''Hi'', timestamp = js ''2024-01-01T10:00:01Z'',
     isRead = False\<rparr>"

text \<open>The mounted component, and its state once a snapshot of two messages has arrived.\<close>

definition example_mounted :: chat_state where
  "example_mounted = mount example_props"

definition example_log :: chat_state where
  "example_log = onChatHistory (Some (Some [example_user_msg, example_driver_msg])) example_mounted"

text \<open>The state after the user has typed one character into the empty input.\<close>

definition typed_h :: chat_state where
  "typed_h = handleTyping example_props (js ''h'') example_mounted"

text \<open>An inbound message, a keystroke and the expiry of the keystroke's timer.\<close>

definition example_events :: "unit event list" where
  "example_events = [ChatMessageEv example_driver_msg, HandleTyping (js ''h''), TimerFire 2]"

section \<open>The mounted component\<close>

lemma mount_eq:
  assumes "ids_set cfg"
  shows "mount cfg = init_state\<lparr>outbox := [GetChatHistory (ride_rideId cfg) (userId cfg) User],
     pendingTimers := [(1, HistoryTimeout True)], nextTimerId := 2\<rparr>"
  using assms
  by (simp add: mount_def loadChatHistory_def setTimeout_def emit_def init_state_def)

lemma example_ids_set: "ids_set example_props"
  by (simp add: example_props_def ids_set_def js_def)

lemma example_mounted_eq:
  "example_mounted = \<lparr>messages = [], newMessage = [], isDriverTyping = False, isLoading = True,
     typingTimeoutRef = None, pendingTimers = [(1, HistoryTimeout True)], nextTimerId = 2,
     outbox = [GetChatHistory (js ''r1'') (js ''u1'') User]\<rparr>"
proof -
  have "example_mounted =
      init_state\<lparr>outbox := [GetChatHistory (ride_rideId example_props) (userId example_props) User],
        pendingTimers := [(1, HistoryTimeout True)], nextTimerId := 2\<rparr>"
    unfolding example_mounted_def by (rule mount_eq [OF example_ids_set])
  then show ?thesis by (simp add: init_state_def example_props_def)
qed

lemma example_log_eq:
  "example_log = example_mounted\<lparr>messages := [example_user_msg, example_driver_msg],
     isLoading := False\<rparr>"
  by (simp add: example_log_def onChatHistory_def)

section \<open>What each handler does to the message log\<close>

lemma run_append: "run cfg s (es @ fs) = run cfg (run cfg s es) fs"
  by (induction es arbitrary: s) simp_all

lemma messages_emit [simp]: "messages (emit c s) = messages s"
  by (simp add: emit_def)

lemma messages_onChatMessage: "messages (onChatMessage cfg m s) = messages s @ [m]"
  by (simp add: onChatMessage_def Let_def)

lemma messages_run_pushes:
  "messages (run cfg s (map ChatMessageEv live)) = messages s @ live"
  by (induction live arbitrary: s) (simp_all add: messages_onChatMessage)

lemma messages_onChatHistory:
  "messages (onChatHistory (Some (Some ms)) s) = ms"
  by (simp add: onChatHistory_def)

lemma messages_runCallback [simp]: "messages (runCallback cfg cb s) = messages s"
  by (cases cb) (simp_all add: emit_def)

lemma messages_fireTimer: "messages (fireTimer cfg t s) = messages s"
  by (simp add: fireTimer_def clearTimeout_def split: option.splits)

lemma messages_handleTyping: "messages (handleTyping cfg text s) = messages s"
  by (simp add: handleTyping_def setTimeout_def clearTimeout_def emit_def Let_def
      split: option.splits)

lemma messages_handleSendMessage: "messages (handleSendMessage cfg s) = messages s"
  by (simp add: handleSendMessage_def clearTimeout_def emit_def Let_def split: option.splits)

lemma messages_handleQuickReply: "messages (handleQuickReply cfg r s) = messages s"
  by (simp add: handleQuickReply_def messages_handleSendMessage)

lemma messages_onTypingIndicator: "messages (onTypingIndicator st b s) = messages s"
  by (simp add: onTypingIndicator_def)

section \<open>Admission of an inbound message\<close>

text \<open>
  C1, as the code has it: \<^verbatim>\<open>onChatMessage\<close> appends. Admitting a message leaves every
  entry of the log as it was and adds the message as a new last entry, whether or not an
  entry with its id is already there; admitting it twice adds it twice.
\<close>

theorem onChatMessage_appends:
  "messages (onChatMessage cfg m s) = messages s @ [m] \<and>
   messages (onChatMessage cfg m (onChatMessage cfg m s)) = messages s @ [m, m]"
  by (simp add: messages_onChatMessage)

text \<open>
  C1 as stated fails: the same message admitted twice into the empty log gives two
  entries with one id, where a single admission gives one entry.
\<close>

theorem onChatMessage_not_idempotent:
  "length (messages (onChatMessage example_props example_user_msg example_mounted)) = 1 \<and>
   length (messages (onChatMessage example_props example_user_msg
      (onChatMessage example_props example_user_msg example_mounted))) = 2 \<and>
   \<not> distinct (map msg_id (messages (onChatMessage example_props example_user_msg
      (onChatMessage example_props example_user_msg example_mounted))))"
  by (simp add: messages_onChatMessage example_mounted_eq)

section \<open>Read flags\<close>

lemma step_keeps_read:
  assumes "\<not> is_history e" "i < length (messages s)"
  shows "i < length (messages (step cfg e s)) \<and>
         (messages (step cfg e s) ! i)\<lparr>isRead := isRead (messages s ! i)\<rparr> = messages s ! i \<and>
         (isRead (messages s ! i) \<longrightarrow> isRead (messages (step cfg e s) ! i))"
  using assms
  by (cases e)
     (simp_all add: messages_onChatMessage messages_onTypingIndicator messages_fireTimer
        messages_handleTyping messages_handleSendMessage messages_handleQuickReply
        onMessagesRead_def nth_append)

text \<open>
  C2, as the code has it: along any sequence of events with no history snapshot among
  them (inbound messages, typing events, read receipts, timer expiries, the user's typing
  and sending), an entry of the log whose read flag is true stays at its position, keeps
  its id and keeps the flag true. A history snapshot is excluded: it replaces the log.
\<close>

theorem read_flag_kept_without_history:
  assumes "list_all (\<lambda>e. \<not> is_history e) evs" "i < length (messages s)"
    "isRead (messages s ! i)"
  shows "i < length (messages (run cfg s evs)) \<and>
         msg_id (messages (run cfg s evs) ! i) = msg_id (messages s ! i) \<and>
         isRead (messages (run cfg s evs) ! i)"
  using assms
proof (induction evs arbitrary: s)
  case Nil
  then show ?case by simp
next
  case (Cons e evs)
  from Cons.prems have e: "\<not> is_history e" and rest: "list_all (\<lambda>e. \<not> is_history e) evs"
    by simp_all
  note st = step_keeps_read [OF e Cons.prems(2), of cfg]
  from st have len: "i < length (messages (step cfg e s))" by blast
  from st Cons.prems(3) have rd: "isRead (messages (step cfg e s) ! i)" by blast
  from st have "msg_id ((messages (step cfg e s) ! i)\<lparr>isRead := isRead (messages s ! i)\<rparr>)
      = msg_id (messages s ! i)" by simp
  then have idm: "msg_id (messages (step cfg e s) ! i) = msg_id (messages s ! i)" by simp
  from Cons.IH [OF rest len rd] idm show ?case by simp
qed

theorem read_flag_kept_without_history_witness:
  "list_all (\<lambda>e. \<not> is_history e)
     [MessagesReadEv (js ''driver''), ChatMessageEv example_driver_msg, HandleTyping (js ''a'')] \<and>
   isRead (messages (onMessagesRead () example_log) ! 0) \<and>
   isRead (messages (run example_props (onMessagesRead () example_log)
     [MessagesReadEv (js ''driver''), ChatMessageEv example_driver_msg, HandleTyping (js ''a'')]) ! 0)"
proof -
  have a: "list_all (\<lambda>e. \<not> is_history e)
     [MessagesReadEv (js ''driver''), ChatMessageEv example_driver_msg, HandleTyping (js ''a'')]"
    by simp
  have b: "0 < length (messages (onMessagesRead () example_log))"
    by (simp add: onMessagesRead_def example_log_eq)
  have c: "isRead (messages (onMessagesRead () example_log) ! 0)"
    by (simp add: onMessagesRead_def example_log_eq example_user_msg_def)
  from read_flag_kept_without_history [OF a b c, of example_props] a c show ?thesis
    by blast
qed

text \<open>
  C2 as stated fails at the history snapshot: the user's message m1 is pushed, a read
  receipt sets its flag, and a snapshot that still lists m1 as unread puts the flag of m1
  back to false.
\<close>

theorem history_resets_read_flag:
  "isRead (messages (run example_props example_mounted
      [ChatMessageEv example_user_msg, MessagesReadEv (js ''driver'')]) ! 0) \<and>
   msg_id (messages (run example_props example_mounted
      [ChatMessageEv example_user_msg, MessagesReadEv (js ''driver'')]) ! 0) = js ''m1'' \<and>
   msg_id (messages (run example_props example_mounted
      [ChatMessageEv example_user_msg, MessagesReadEv (js ''driver''),
       ChatHistoryEv (Some (Some [example_user_msg]))]) ! 0) = js ''m1'' \<and>
   \<not> isRead (messages (run example_props example_mounted
      [ChatMessageEv example_user_msg, MessagesReadEv (js ''driver''),
       ChatHistoryEv (Some (Some [example_user_msg]))]) ! 0)"
  by (simp add: messages_onChatMessage onMessagesRead_def onChatHistory_def example_mounted_eq
      example_user_msg_def)

section \<open>Order of the log\<close>

text \<open>
  C3, as the code has it: the log is kept in arrival order and is never sorted. Live
  pushes are appended to the log in the order they are delivered, and after a history
  snapshot followed by live pushes the log is the snapshot's list, in the snapshot's
  order, followed by those pushes in delivery order, whatever was delivered before the
  snapshot.
\<close>

theorem log_is_arrival_order:
  "messages (run cfg s (map ChatMessageEv live)) = messages s @ live \<and>
   messages (run cfg s (pre @ ChatHistoryEv (Some (Some hist)) # map ChatMessageEv live))
     = hist @ live"
  by (simp add: run_append messages_run_pushes messages_onChatHistory)

text \<open>
  C3 as stated fails: two deliveries of the same two messages in the two possible orders
  give two different logs, and the first of them lists the message created at 10:00:02
  before the one created at 10:00:01.
\<close>

theorem log_order_depends_on_delivery:
  "messages (run example_props example_mounted
      [ChatMessageEv example_user_msg, ChatMessageEv example_driver_msg :: unit event])
     = [example_user_msg, example_driver_msg] \<and>
   messages (run example_props example_mounted
      [ChatMessageEv example_driver_msg, ChatMessageEv example_user_msg :: unit event])
     = [example_driver_msg, example_user_msg] \<and>
   [example_user_msg, example_driver_msg] \<noteq> [example_driver_msg, example_user_msg] \<and>
   map timestamp [example_user_msg, example_driver_msg]
     = [js ''2024-01-01T10:00:02Z'', js ''2024-01-01T10:00:01Z'']"
  by (simp add: messages_onChatMessage example_mounted_eq example_user_msg_def
      example_driver_msg_def js_def)

section \<open>Notification and mark-read on an inbound message\<close>

text \<open>
  C5: on every inbound message the message is appended to the log; when its sender type
  is driver, the notification is dispatched and the mark-read command is issued, and
  nothing else; when its sender type is user (the echo of a message the user sent),
  no command is issued at all.
\<close>

theorem onChatMessage_notifies_driver_only:
  "messages (onChatMessage cfg m s) = messages s @ [m] \<and>
   (senderType m = Driver \<longrightarrow>
      outbox (onChatMessage cfg m s) = outbox s @
        [SendChatNotification (rideId m) (senderId m) (senderName cfg) (message m)
           (js ''text'') (js ''high'') (js ''default'') 1,
         MarkMessagesAsRead (rideId m) (userId cfg) User]) \<and>
   (senderType m = User \<longrightarrow> outbox (onChatMessage cfg m s) = outbox s)"
  by (simp add: onChatMessage_def emit_def Let_def)

theorem onChatMessage_notifies_driver_only_witness:
  "senderType example_driver_msg = Driver \<and>
   outbox (onChatMessage example_props example_driver_msg example_mounted) =
     [GetChatHistory (js ''r1'') (js ''u1'') User,
      SendChatNotification (js ''r1'') (js ''d1'') (js ''Pilot'') (js ''Hi'')
        (js ''text'') (js ''high'') (js ''default'') 1,
      MarkMessagesAsRead (js ''r1'') (js ''u1'') User] \<and>
   senderType example_user_msg = User \<and>
   outbox (onChatMessage example_props example_user_msg example_mounted) =
     [GetChatHistory (js ''r1'') (js ''u1'') User] \<and>
   messages (onChatMessage example_props example_user_msg example_mounted) = [example_user_msg]"
proof -
  have d: "senderType example_driver_msg = Driver" and u: "senderType example_user_msg = User"
    by (simp_all add: example_driver_msg_def example_user_msg_def)
  from d onChatMessage_notifies_driver_only [of example_props example_driver_msg example_mounted]
  have "outbox (onChatMessage example_props example_driver_msg example_mounted) = outbox example_mounted @
        [SendChatNotification (rideId example_driver_msg) (senderId example_driver_msg)
           (senderName example_props) (message example_driver_msg)
           (js ''text'') (js ''high'') (js ''default'') 1,
         MarkMessagesAsRead (rideId example_driver_msg) (userId example_props) User]"
    by blast
  moreover from u onChatMessage_notifies_driver_only [of example_props example_user_msg example_mounted]
  have "outbox (onChatMessage example_props example_user_msg example_mounted) = outbox example_mounted"
    and "messages (onChatMessage example_props example_user_msg example_mounted)
           = messages example_mounted @ [example_user_msg]"
    by blast+
  ultimately show ?thesis using d u
    by (simp add: example_mounted_eq example_driver_msg_def example_props_def senderName_def)
qed

section \<open>The history snapshot\<close>

text \<open>
  C9: a history snapshot replaces the log by the snapshot's list, whatever the log held;
  by the empty list when the payload or its list is missing; and it always clears the
  loading flag.
\<close>

theorem onChatHistory_replaces_log:
  "messages (onChatHistory (Some (Some ms)) s) = ms \<and>
   messages (onChatHistory (Some None) s) = [] \<and>
   messages (onChatHistory None s) = [] \<and>
   isLoading (onChatHistory d s) = False"
  by (simp add: onChatHistory_def split: option.splits)

section \<open>The read receipt\<close>

text \<open>
  C10: a read receipt keeps the length and the order of the log and every field of every
  entry but the read flag; an entry sent by the user has the flag set, whatever the
  payload, and an entry sent by the driver is unchanged. Nothing else of the state
  changes.
\<close>

theorem onMessagesRead_frame:
  "length (messages (onMessagesRead d s)) = length (messages s) \<and>
   (\<forall>i < length (messages s).
      (messages (onMessagesRead d s) ! i)\<lparr>isRead := isRead (messages s ! i)\<rparr> = messages s ! i \<and>
      (senderType (messages s ! i) = User \<longrightarrow> isRead (messages (onMessagesRead d s) ! i)) \<and>
      (senderType (messages s ! i) = Driver \<longrightarrow>
         messages (onMessagesRead d s) ! i = messages s ! i)) \<and>
   onMessagesRead d s = s\<lparr>messages := messages (onMessagesRead d s)\<rparr>"
  by (simp add: onMessagesRead_def)

theorem onMessagesRead_frame_witness:
  "length (messages (onMessagesRead (js ''driver'') example_log)) = 2 \<and>
   senderType (messages example_log ! 0) = User \<and>
   isRead (messages (onMessagesRead (js ''driver'') example_log) ! 0) \<and>
   senderType (messages example_log ! 1) = Driver \<and>
   messages (onMessagesRead (js ''driver'') example_log) ! 1 = example_driver_msg"
proof -
  have len: "length (messages example_log) = 2"
    and u: "senderType (messages example_log ! 0) = User"
    and d: "senderType (messages example_log ! 1) = Driver"
    and m1: "messages example_log ! 1 = example_driver_msg"
    by (simp_all add: example_log_eq example_user_msg_def example_driver_msg_def)
  note fr = onMessagesRead_frame [of "js ''driver''" example_log]
  from fr len have "length (messages (onMessagesRead (js ''driver'') example_log)) = 2"
    by simp
  moreover from fr len u have "isRead (messages (onMessagesRead (js ''driver'') example_log) ! 0)"
    by simp
  moreover from fr len d m1
  have "messages (onMessagesRead (js ''driver'') example_log) ! 1 = example_driver_msg"
    by simp
  ultimately show ?thesis using u d by simp
qed

section \<open>Sending a message\<close>

lemma trim_empty_iff: "trim s = [] \<longleftrightarrow> list_all is_js_whitespace s"
proof
  assume "trim s = []"
  then have "dropWhile is_js_whitespace (rev (dropWhile is_js_whitespace s)) = []"
    unfolding trim_def by (simp only: rev_is_Nil_conv)
  then have "\<forall>c \<in> set (rev (dropWhile is_js_whitespace s)). is_js_whitespace c"
    by (simp only: dropWhile_eq_Nil_conv)
  then have all: "\<forall>c \<in> set (dropWhile is_js_whitespace s). is_js_whitespace c"
    by (simp only: set_rev)
  have nil: "dropWhile is_js_whitespace s = []"
  proof (rule ccontr)
    assume ne: "dropWhile is_js_whitespace s \<noteq> []"
    then have "\<not> is_js_whitespace (hd (dropWhile is_js_whitespace s))"
      by (rule hd_dropWhile)
    moreover from ne have "hd (dropWhile is_js_whitespace s) \<in> set (dropWhile is_js_whitespace s)"
      by (rule hd_in_set)
    ultimately show False using all by blast
  qed
  have "\<forall>c \<in> set s. is_js_whitespace c"
    using nil by (simp only: dropWhile_eq_Nil_conv)
  then show "list_all is_js_whitespace s"
    by (simp only: list_all_iff)
next
  assume "list_all is_js_whitespace s"
  then have "\<forall>c \<in> set s. is_js_whitespace c"
    by (simp only: list_all_iff)
  then have "dropWhile is_js_whitespace s = []"
    by (simp only: dropWhile_eq_Nil_conv)
  then show "trim s = []" by (simp only: trim_def rev.simps dropWhile.simps)
qed

lemma handleSendMessage_sends:
  assumes "trim (newMessage s) \<noteq> []" "ids_set cfg"
  shows "handleSendMessage cfg s =
     s\<lparr>newMessage := [],
       outbox := outbox s @
         [SendChatMessage (ride_rideId cfg) (userId cfg) User (trim (newMessage s)),
          SendTypingStop (ride_rideId cfg) (userId cfg) User],
       typingTimeoutRef := None,
       pendingTimers := (case typingTimeoutRef s of
           None \<Rightarrow> pendingTimers s
         | Some t \<Rightarrow> filter (\<lambda>p. fst p \<noteq> t) (pendingTimers s))\<rparr>"
  using assms
  by (cases "typingTimeoutRef s")
     (simp_all add: handleSendMessage_def emit_def clearTimeout_def Let_def)

lemma handleSendMessage_noop:
  assumes "trim (newMessage s) = [] \<or> \<not> ids_set cfg"
  shows "handleSendMessage cfg s = s"
  using assms by (auto simp: handleSendMessage_def)

text \<open>
  C8, as the code has it: when the input is empty or holds only white space,
  \<^verbatim>\<open>handleSendMessage\<close> changes nothing and issues nothing. Otherwise (with the user and
  ride identifiers there) it issues the send-message command with the trimmed input,
  followed by the typing-stop command, and clears the input; it inserts nothing into the
  log, which stays as it was until the server pushes the message back.
\<close>

theorem handleSendMessage_contract:
  "(list_all is_js_whitespace (newMessage s) \<longrightarrow> handleSendMessage cfg s = s) \<and>
   (\<not> list_all is_js_whitespace (newMessage s) \<and> ids_set cfg \<longrightarrow>
      messages (handleSendMessage cfg s) = messages s \<and>
      newMessage (handleSendMessage cfg s) = [] \<and>
      outbox (handleSendMessage cfg s) = outbox s @
        [SendChatMessage (ride_rideId cfg) (userId cfg) User (trim (newMessage s)),
         SendTypingStop (ride_rideId cfg) (userId cfg) User])"
proof -
  have blank: "handleSendMessage cfg s = s" if "list_all is_js_whitespace (newMessage s)"
  proof -
    from that have "trim (newMessage s) = []" by (simp only: trim_empty_iff)
    then show ?thesis by (simp add: handleSendMessage_noop)
  qed
  have sent: "messages (handleSendMessage cfg s) = messages s \<and>
      newMessage (handleSendMessage cfg s) = [] \<and>
      outbox (handleSendMessage cfg s) = outbox s @
        [SendChatMessage (ride_rideId cfg) (userId cfg) User (trim (newMessage s)),
         SendTypingStop (ride_rideId cfg) (userId cfg) User]"
    if "\<not> list_all is_js_whitespace (newMessage s)" "ids_set cfg"
  proof -
    from that(1) have ne: "trim (newMessage s) \<noteq> []" by (simp add: trim_empty_iff)
    show ?thesis by (simp add: handleSendMessage_sends [OF ne that(2)])
  qed
  from blank sent show ?thesis by blast
qed

theorem handleSendMessage_contract_witness:
  "list_all is_js_whitespace (newMessage (example_mounted\<lparr>newMessage := js ''  ''\<rparr>)) \<and>
   handleSendMessage example_props (example_mounted\<lparr>newMessage := js ''  ''\<rparr>)
     = example_mounted\<lparr>newMessage := js ''  ''\<rparr> \<and>
   \<not> list_all is_js_whitespace (newMessage (example_mounted\<lparr>newMessage := js '' hi ''\<rparr>)) \<and>
   ids_set example_props \<and>
   messages (handleSendMessage example_props (example_mounted\<lparr>newMessage := js '' hi ''\<rparr>)) = [] \<and>
   outbox (handleSendMessage example_props (example_mounted\<lparr>newMessage := js '' hi ''\<rparr>)) =
     [GetChatHistory (js ''r1'') (js ''u1'') User,
      SendChatMessage (js ''r1'') (js ''u1'') User (js ''hi''),
      SendTypingStop (js ''r1'') (js ''u1'') User]"
proof -
  have a: "list_all is_js_whitespace (newMessage (example_mounted\<lparr>newMessage := js ''  ''\<rparr>))"
    by (simp add: js_def is_js_whitespace_def)
  have b: "\<not> list_all is_js_whitespace (newMessage (example_mounted\<lparr>newMessage := js '' hi ''\<rparr>))"
    by (simp add: js_def is_js_whitespace_def)
  have c: "ids_set example_props"
    by (simp add: example_props_def ids_set_def js_def)
  have tr: "trim (js '' hi '') = js ''hi''"
    by (simp add: trim_def js_def is_js_whitespace_def)
  from handleSendMessage_contract [of "example_mounted\<lparr>newMessage := js ''  ''\<rparr>" example_props] a
  have 1: "handleSendMessage example_props (example_mounted\<lparr>newMessage := js ''  ''\<rparr>)
     = example_mounted\<lparr>newMessage := js ''  ''\<rparr>"
    by blast
  from handleSendMessage_contract [of "example_mounted\<lparr>newMessage := js '' hi ''\<rparr>" example_props] b c
  have 2: "messages (handleSendMessage example_props (example_mounted\<lparr>newMessage := js '' hi ''\<rparr>))
       = messages (example_mounted\<lparr>newMessage := js '' hi ''\<rparr>) \<and>
     outbox (handleSendMessage example_props (example_mounted\<lparr>newMessage := js '' hi ''\<rparr>)) =
       outbox (example_mounted\<lparr>newMessage := js '' hi ''\<rparr>) @
        [SendChatMessage (ride_rideId example_props) (userId example_props) User
           (trim (newMessage (example_mounted\<lparr>newMessage := js '' hi ''\<rparr>))),
         SendTypingStop (ride_rideId example_props) (userId example_props) User]"
    by blast
  from 1 2 a b c tr show ?thesis
    by (simp add: example_mounted_eq example_props_def)
qed

text \<open>
  C8 as stated fails: the user types "h" and sends; the send-message command goes out and
  the log is still empty.
\<close>

theorem send_adds_nothing_to_log:
  "newMessage (run example_props example_mounted [HandleTyping (js ''h'') :: unit event]) = js ''h'' \<and>
   messages (run example_props example_mounted
     [HandleTyping (js ''h''), HandleSendMessage :: unit event]) = [] \<and>
   outbox (run example_props example_mounted
     [HandleTyping (js ''h''), HandleSendMessage :: unit event]) =
     [GetChatHistory (js ''r1'') (js ''u1'') User,
      SendTypingStart (js ''r1'') (js ''u1'') User,
      SendChatMessage (js ''r1'') (js ''u1'') User (js ''h''),
      SendTypingStop (js ''r1'') (js ''u1'') User]"
  by (simp add: handleTyping_def handleSendMessage_def setTimeout_def
      clearTimeout_def emit_def example_mounted_eq example_props_def ids_set_def trim_def js_def
      is_js_whitespace_def Let_def)

section \<open>Typing\<close>

lemma handleTyping_eq:
  "handleTyping cfg text s =
     s\<lparr>newMessage := text,
       outbox := outbox s @
         (if length text = 1 \<and> ids_set cfg
          then [SendTypingStart (ride_rideId cfg) (userId cfg) User] else []),
       pendingTimers :=
         (case typingTimeoutRef s of
            None \<Rightarrow> pendingTimers s
          | Some t \<Rightarrow> filter (\<lambda>p. fst p \<noteq> t) (pendingTimers s))
         @ [(nextTimerId s, TypingStopTimeout)],
       nextTimerId := Suc (nextTimerId s),
       typingTimeoutRef := Some (nextTimerId s)\<rparr>"
  by (cases "typingTimeoutRef s")
     (simp_all add: handleTyping_def setTimeout_def clearTimeout_def emit_def Let_def)

lemma outbox_handleTyping:
  "outbox (handleTyping cfg text s) = outbox s @
     (if length text = 1 \<and> ids_set cfg
      then [SendTypingStart (ride_rideId cfg) (userId cfg) User] else [])"
  by (simp add: handleTyping_eq)

lemma stop_timers_handleTyping:
  assumes "stop_timers_tracked s"
  shows "stop_timers (handleTyping cfg text s) = [(nextTimerId s, TypingStopTimeout)]"
  using assms
  by (cases "typingTimeoutRef s")
     (auto simp: handleTyping_eq stop_timers_def stop_timers_tracked_def filter_empty_conv)

lemma tracked_handleTyping:
  assumes "stop_timers_tracked s"
  shows "stop_timers_tracked (handleTyping cfg text s)"
  using assms
  by (cases "typingTimeoutRef s")
     (auto simp: handleTyping_eq stop_timers_tracked_def)

lemma fresh_handleTyping:
  assumes "timers_fresh s"
  shows "timers_fresh (handleTyping cfg text s)"
  using assms
  by (cases "typingTimeoutRef s")
     (auto simp: handleTyping_eq timers_fresh_def less_Suc_eq)

lemma map_of_fresh_snoc:
  assumes "\<forall>p \<in> set xs. fst p \<noteq> k"
  shows "map_of (xs @ [(k, v)]) k = Some v"
  using assms by (induction xs) auto

lemma map_of_handleTyping:
  assumes "timers_fresh s"
  shows "map_of (pendingTimers (handleTyping cfg text s)) (nextTimerId s) = Some TypingStopTimeout"
proof -
  have "\<forall>p \<in> set (case typingTimeoutRef s of
            None \<Rightarrow> pendingTimers s
          | Some t \<Rightarrow> filter (\<lambda>p. fst p \<noteq> t) (pendingTimers s)). fst p \<noteq> nextTimerId s"
    using assms by (cases "typingTimeoutRef s") (auto simp: timers_fresh_def)
  then have "map_of ((case typingTimeoutRef s of
            None \<Rightarrow> pendingTimers s
          | Some t \<Rightarrow> filter (\<lambda>p. fst p \<noteq> t) (pendingTimers s))
         @ [(nextTimerId s, TypingStopTimeout)]) (nextTimerId s) = Some TypingStopTimeout"
    by (rule map_of_fresh_snoc)
  moreover have "pendingTimers (handleTyping cfg text s) =
      (case typingTimeoutRef s of
            None \<Rightarrow> pendingTimers s
          | Some t \<Rightarrow> filter (\<lambda>p. fst p \<noteq> t) (pendingTimers s))
         @ [(nextTimerId s, TypingStopTimeout)]"
    by (simp add: handleTyping_eq)
  ultimately show ?thesis by (simp only:)
qed

lemma typing_run_invariants:
  assumes "stop_timers_tracked s" "timers_fresh s"
  shows "stop_timers_tracked (run cfg s (map HandleTyping texts :: 'd event list)) \<and>
         timers_fresh (run cfg s (map HandleTyping texts :: 'd event list))"
  using assms
  by (induction texts arbitrary: s) (simp_all add: tracked_handleTyping fresh_handleTyping)

lemma outbox_typing_run:
  assumes "ids_set cfg"
  shows "outbox (run cfg s (map HandleTyping texts :: 'd event list)) = outbox s @
     replicate (length (filter (\<lambda>t. length t = 1) texts))
       (SendTypingStart (ride_rideId cfg) (userId cfg) User)"
  using assms
  by (induction texts arbitrary: s) (simp_all add: outbox_handleTyping replicate_app_Cons_same)

lemma fire_stop_timer:
  assumes "ids_set cfg" "map_of (pendingTimers s) t = Some TypingStopTimeout"
    "stop_timers s = [(t, TypingStopTimeout)]"
  shows "outbox (fireTimer cfg t s) = outbox s @ [SendTypingStop (ride_rideId cfg) (userId cfg) User]"
    and "stop_timers (fireTimer cfg t s) = []"
proof -
  from assms(1,2) show "outbox (fireTimer cfg t s)
      = outbox s @ [SendTypingStop (ride_rideId cfg) (userId cfg) User]"
    by (simp add: fireTimer_def clearTimeout_def emit_def)
  have "\<forall>p \<in> set (pendingTimers s). snd p = TypingStopTimeout \<longrightarrow> fst p = t"
  proof (intro ballI impI)
    fix p assume "p \<in> set (pendingTimers s)" "snd p = TypingStopTimeout"
    then have "p \<in> set (stop_timers s)" by (simp add: stop_timers_def)
    with assms(3) show "fst p = t" by simp
  qed
  with assms(1,2) show "stop_timers (fireTimer cfg t s) = []"
    by (auto simp: fireTimer_def clearTimeout_def emit_def stop_timers_def filter_empty_conv)
qed

section \<open>The timer table along event sequences\<close>

lemma map_of_clear:
  "map_of (filter (\<lambda>p. fst p \<noteq> t) xs) h = (if h = t then None else map_of xs h)"
  by (induction xs) auto

lemma map_of_snoc_other:
  "h \<noteq> k \<Longrightarrow> map_of (xs @ [(k, v)]) h = map_of xs h"
  by (induction xs) auto

lemma fireTimer_twice: "fireTimer cfg t (fireTimer cfg t s) = fireTimer cfg t s"
proof (cases "map_of (pendingTimers s) t")
  case None
  then show ?thesis by (simp add: fireTimer_def)
next
  case (Some cb)
  have "pendingTimers (runCallback cfg cb (clearTimeout t s))
      = filter (\<lambda>p. fst p \<noteq> t) (pendingTimers s)"
    by (cases cb) (simp_all add: clearTimeout_def emit_def)
  then have "map_of (pendingTimers (fireTimer cfg t s)) t = None"
    using Some by (simp add: fireTimer_def map_of_clear)
  then show ?thesis by (simp add: fireTimer_def [of cfg t "fireTimer cfg t s"])
qed

lemma isLoading_emit [simp]: "isLoading (emit c s) = isLoading s"
  by (simp add: emit_def)

lemma isLoading_clearTimeout [simp]: "isLoading (clearTimeout t s) = isLoading s"
  by (simp add: clearTimeout_def)

lemma step_loading_cleared:
  assumes "\<not> isLoading s"
  shows "\<not> isLoading (step cfg e s)"
proof (cases e)
  case (TimerFire t)
  show ?thesis
  proof (cases "map_of (pendingTimers s) t")
    case None
    with assms TimerFire show ?thesis by (simp add: fireTimer_def)
  next
    case (Some cb)
    with assms TimerFire show ?thesis by (cases cb) (simp_all add: fireTimer_def)
  qed
next
  case (HandleTyping x)
  with assms show ?thesis by (simp add: handleTyping_eq)
next
  case HandleSendMessage
  with assms show ?thesis
    by (cases "trim (newMessage s) \<noteq> [] \<and> ids_set cfg")
       (simp_all add: handleSendMessage_sends handleSendMessage_noop)
next
  case (HandleQuickReply r)
  with assms show ?thesis
    by (cases "trim (newMessage s) \<noteq> [] \<and> ids_set cfg")
       (simp_all add: handleQuickReply_def handleSendMessage_sends)
qed (use assms in \<open>simp_all add: onChatMessage_def onChatHistory_def onTypingIndicator_def
      onMessagesRead_def Let_def split: option.splits\<close>)

lemma run_loading_cleared:
  assumes "\<not> isLoading s"
  shows "\<not> isLoading (run cfg s evs)"
  using assms by (induction evs arbitrary: s) (simp_all add: step_loading_cleared)

lemma timers_runCallback [simp]:
  "pendingTimers (runCallback cfg cb s) = pendingTimers s"
  "nextTimerId (runCallback cfg cb s) = nextTimerId s"
  "typingTimeoutRef (runCallback cfg cb s) = typingTimeoutRef s"
  by (cases cb; simp add: emit_def)+

lemma fireTimer_timers:
  "pendingTimers (fireTimer cfg t s) = filter (\<lambda>p. fst p \<noteq> t) (pendingTimers s)"
  "nextTimerId (fireTimer cfg t s) = nextTimerId s"
  "typingTimeoutRef (fireTimer cfg t s) = typingTimeoutRef s"
proof -
  show "pendingTimers (fireTimer cfg t s) = filter (\<lambda>p. fst p \<noteq> t) (pendingTimers s)"
  proof (cases "map_of (pendingTimers s) t")
    case None
    then have "\<forall>p \<in> set (pendingTimers s). fst p \<noteq> t"
      by (auto simp: map_of_eq_None_iff)
    then have "filter (\<lambda>p. fst p \<noteq> t) (pendingTimers s) = pendingTimers s"
      by (simp add: filter_id_conv)
    with None show ?thesis by (simp add: fireTimer_def)
  next
    case (Some cb)
    then show ?thesis by (simp add: fireTimer_def clearTimeout_def)
  qed
  show "nextTimerId (fireTimer cfg t s) = nextTimerId s"
    by (simp add: fireTimer_def clearTimeout_def split: option.splits)
  show "typingTimeoutRef (fireTimer cfg t s) = typingTimeoutRef s"
    by (simp add: fireTimer_def clearTimeout_def split: option.splits)
qed

lemma step_only_history_timer:
  assumes "only_history_timer h s"
  shows "only_history_timer h (step cfg e s)"
proof (cases e)
  case (TimerFire t)
  with assms show ?thesis
    by (auto simp: only_history_timer_def fireTimer_timers)
next
  case (HandleTyping x)
  with assms show ?thesis
    by (cases "typingTimeoutRef s") (auto simp: only_history_timer_def handleTyping_eq)
next
  case HandleSendMessage
  with assms show ?thesis
    by (cases "trim (newMessage s) \<noteq> [] \<and> ids_set cfg"; cases "typingTimeoutRef s")
       (auto simp: only_history_timer_def handleSendMessage_sends handleSendMessage_noop)
next
  case (HandleQuickReply r)
  with assms show ?thesis
    by (cases "trim (newMessage s) \<noteq> [] \<and> ids_set cfg"; cases "typingTimeoutRef s")
       (auto simp: only_history_timer_def handleQuickReply_def handleSendMessage_sends)
qed (use assms in \<open>simp_all add: only_history_timer_def onChatMessage_def onChatHistory_def
      onTypingIndicator_def onMessagesRead_def emit_def Let_def split: option.splits\<close>)

lemma run_only_history_timer:
  assumes "only_history_timer h s"
  shows "only_history_timer h (run cfg s evs)"
  using assms by (induction evs arbitrary: s) (simp_all add: step_only_history_timer)

lemma step_awaiting_history:
  assumes "awaiting_history h s" "\<not> is_history e" "e \<noteq> TimerFire h"
  shows "awaiting_history h (step cfg e s)"
proof (cases e)
  case (TimerFire t)
  with assms(3) have ne: "t \<noteq> h" by simp
  show ?thesis
  proof (cases "map_of (pendingTimers s) t")
    case None
    with assms(1) TimerFire show ?thesis by (simp add: fireTimer_def)
  next
    case (Some cb)
    then have "(t, cb) \<in> set (pendingTimers s)" by (rule map_of_SomeD)
    with assms(1) ne have cb: "cb = TypingStopTimeout"
      by (auto simp: awaiting_history_def)
    have "isLoading (fireTimer cfg t s) = isLoading s"
      using Some cb by (simp add: fireTimer_def)
    with assms(1) ne TimerFire show ?thesis
      by (auto simp: awaiting_history_def fireTimer_timers map_of_clear)
  qed
next
  case (HandleTyping x)
  with assms(1) show ?thesis
    by (cases "typingTimeoutRef s")
       (auto simp: awaiting_history_def handleTyping_eq map_of_snoc_other map_of_clear)
next
  case HandleSendMessage
  with assms(1) show ?thesis
    by (cases "trim (newMessage s) \<noteq> [] \<and> ids_set cfg"; cases "typingTimeoutRef s")
       (auto simp: awaiting_history_def handleSendMessage_sends handleSendMessage_noop
          map_of_clear)
next
  case (HandleQuickReply r)
  with assms(1) show ?thesis
    by (cases "trim (newMessage s) \<noteq> [] \<and> ids_set cfg"; cases "typingTimeoutRef s")
       (auto simp: awaiting_history_def handleQuickReply_def handleSendMessage_sends
          map_of_clear)
qed (use assms in \<open>simp_all add: awaiting_history_def onChatMessage_def
      onTypingIndicator_def onMessagesRead_def emit_def Let_def\<close>)

lemma run_awaiting_history:
  assumes "awaiting_history h s" "list_all (\<lambda>e. \<not> is_history e \<and> e \<noteq> TimerFire h) evs"
  shows "awaiting_history h (run cfg s evs)"
  using assms by (induction evs arbitrary: s) (simp_all add: step_awaiting_history)

lemma mount_invariants:
  assumes "ids_set cfg"
  shows "awaiting_history 1 (mount cfg)" "only_history_timer 1 (mount cfg)"
  by (simp_all add: mount_eq [OF assms] awaiting_history_def only_history_timer_def
      init_state_def)

lemma fire_awaiting_history:
  assumes "awaiting_history h s"
  shows "\<not> isLoading (fireTimer cfg h s)"
  using assms by (simp add: awaiting_history_def fireTimer_def)

lemma fire_after_snapshot:
  assumes "only_history_timer h s" "\<not> isLoading s"
  shows "fireTimer cfg h s = clearTimeout h s"
proof (cases "map_of (pendingTimers s) h")
  case None
  then have "\<forall>p \<in> set (pendingTimers s). fst p \<noteq> h"
    by (auto simp: map_of_eq_None_iff)
  then have "filter (\<lambda>p. fst p \<noteq> h) (pendingTimers s) = pendingTimers s"
    by (simp add: filter_id_conv)
  with None show ?thesis by (simp add: fireTimer_def clearTimeout_def)
next
  case (Some cb)
  then have "(h, cb) \<in> set (pendingTimers s)" by (rule map_of_SomeD)
  with assms(1) have "cb = HistoryTimeout True"
    by (auto simp: only_history_timer_def)
  with Some assms(2) show ?thesis
    by (simp add: fireTimer_def clearTimeout_def)
qed

lemma step_timers_tracked_fresh:
  assumes "stop_timers_tracked s" "timers_fresh s"
  shows "stop_timers_tracked (step cfg e s) \<and> timers_fresh (step cfg e s)"
proof (cases e)
  case (TimerFire t)
  with assms show ?thesis
    by (auto simp: stop_timers_tracked_def timers_fresh_def fireTimer_timers)
next
  case (HandleTyping x)
  with assms show ?thesis by (simp add: tracked_handleTyping fresh_handleTyping)
next
  case HandleSendMessage
  with assms show ?thesis
    by (cases "trim (newMessage s) \<noteq> [] \<and> ids_set cfg"; cases "typingTimeoutRef s")
       (auto simp: stop_timers_tracked_def timers_fresh_def handleSendMessage_sends
          handleSendMessage_noop)
next
  case (HandleQuickReply r)
  with assms show ?thesis
    by (cases "trim (newMessage s) \<noteq> [] \<and> ids_set cfg"; cases "typingTimeoutRef s")
       (auto simp: stop_timers_tracked_def timers_fresh_def handleQuickReply_def
          handleSendMessage_sends)
qed (use assms in \<open>simp_all add: stop_timers_tracked_def timers_fresh_def onChatMessage_def
      onChatHistory_def onTypingIndicator_def onMessagesRead_def emit_def Let_def
      split: option.splits\<close>)

lemma mount_timers_tracked_fresh:
  "stop_timers_tracked (mount cfg) \<and> timers_fresh (mount cfg)"
  by (simp add: mount_def loadChatHistory_def setTimeout_def emit_def init_state_def
      stop_timers_tracked_def timers_fresh_def)

lemma run_timers_tracked_fresh:
  assumes "stop_timers_tracked s" "timers_fresh s"
  shows "stop_timers_tracked (run cfg s evs) \<and> timers_fresh (run cfg s evs)"
  using assms by (induction evs arbitrary: s) (simp_all add: step_timers_tracked_fresh)

text \<open>Both properties of the timer table hold in every state reached after mounting.\<close>

lemma reachable_timers_tracked_fresh:
  "stop_timers_tracked (run cfg (mount cfg) evs) \<and> timers_fresh (run cfg (mount cfg) evs)"
  using mount_timers_tracked_fresh [of cfg] by (simp add: run_timers_tracked_fresh)

section \<open>Typing stop on send\<close>

text \<open>
  C7, as the code has it: a send (input not blank, identifiers there) issues the
  send-message command and then exactly one typing-stop command, cancels the timer that
  \<^verbatim>\<open>typingTimeoutRef\<close> holds and empties the reference, so that no typing-stop timer is
  left pending. It does so on every send: nothing in the handler asks whether a
  typing-stop timer was still pending.
\<close>

theorem handleSendMessage_stops_typing:
  assumes "trim (newMessage s) \<noteq> []" "ids_set cfg" "stop_timers_tracked s"
  shows "outbox (handleSendMessage cfg s) = outbox s @
           [SendChatMessage (ride_rideId cfg) (userId cfg) User (trim (newMessage s)),
            SendTypingStop (ride_rideId cfg) (userId cfg) User] \<and>
         typingTimeoutRef (handleSendMessage cfg s) = None \<and>
         pendingTimers (handleSendMessage cfg s) =
           (case typingTimeoutRef s of
              None \<Rightarrow> pendingTimers s
            | Some t \<Rightarrow> filter (\<lambda>p. fst p \<noteq> t) (pendingTimers s)) \<and>
         stop_timers (handleSendMessage cfg s) = []"
proof -
  note eq = handleSendMessage_sends [OF assms(1,2)]
  have st: "stop_timers (handleSendMessage cfg s) = []"
    using assms(3)
    by (cases "typingTimeoutRef s")
       (auto simp: eq stop_timers_def stop_timers_tracked_def filter_empty_conv)
  from st show ?thesis by (simp add: eq)
qed

theorem handleSendMessage_stops_typing_witness:
  "trim (newMessage typed_h) \<noteq> [] \<and> ids_set example_props \<and> stop_timers_tracked typed_h \<and>
   stop_timers typed_h = [(2, TypingStopTimeout)] \<and>
   outbox (handleSendMessage example_props typed_h) =
     [GetChatHistory (js ''r1'') (js ''u1'') User,
      SendTypingStart (js ''r1'') (js ''u1'') User,
      SendChatMessage (js ''r1'') (js ''u1'') User (js ''h''),
      SendTypingStop (js ''r1'') (js ''u1'') User] \<and>
   typingTimeoutRef (handleSendMessage example_props typed_h) = None \<and>
   stop_timers (handleSendMessage example_props typed_h) = []"
proof -
  have h: "typed_h = \<lparr>messages = [], newMessage = js ''h'', isDriverTyping = False,
     isLoading = True, typingTimeoutRef = Some 2,
     pendingTimers = [(1, HistoryTimeout True), (2, TypingStopTimeout)], nextTimerId = 3,
     outbox = [GetChatHistory (js ''r1'') (js ''u1'') User,
               SendTypingStart (js ''r1'') (js ''u1'') User]\<rparr>"
    by (simp add: typed_h_def handleTyping_def setTimeout_def emit_def example_mounted_eq
        example_props_def ids_set_def js_def Let_def)
  have a: "trim (newMessage typed_h) \<noteq> []"
    by (simp add: h trim_def js_def is_js_whitespace_def)
  have tr: "trim (newMessage typed_h) = js ''h''"
    by (simp add: h trim_def js_def is_js_whitespace_def)
  have b: "ids_set example_props"
    by (simp add: example_props_def ids_set_def js_def)
  have c: "stop_timers_tracked typed_h"
    by (simp add: h stop_timers_tracked_def)
  have d: "stop_timers typed_h = [(2, TypingStopTimeout)]"
    by (simp add: h stop_timers_def)
  from handleSendMessage_stops_typing [OF a b c] a b c d tr show ?thesis
    by (simp add: h example_props_def)
qed

text \<open>
  C7 as stated fails: the user types "h", the typing-stop timer expires and issues the
  typing-stop, no timer is pending any more, and the send issues a second typing-stop
  for the one typing-start.
\<close>

theorem send_while_idle_emits_typing_stop:
  "stop_timers (run example_props example_mounted
      [HandleTyping (js ''h''), TimerFire 2 :: unit event]) = [] \<and>
   outbox (run example_props example_mounted [HandleTyping (js ''h''), TimerFire 2 :: unit event])
     = [GetChatHistory (js ''r1'') (js ''u1'') User,
        SendTypingStart (js ''r1'') (js ''u1'') User, SendTypingStop (js ''r1'') (js ''u1'') User] \<and>
   outbox (run example_props example_mounted
      [HandleTyping (js ''h''), TimerFire 2, HandleSendMessage :: unit event])
     = [GetChatHistory (js ''r1'') (js ''u1'') User,
        SendTypingStart (js ''r1'') (js ''u1'') User, SendTypingStop (js ''r1'') (js ''u1'') User,
        SendChatMessage (js ''r1'') (js ''u1'') User (js ''h''),
        SendTypingStop (js ''r1'') (js ''u1'') User]"
  by (simp add: handleTyping_def handleSendMessage_def fireTimer_def setTimeout_def
      clearTimeout_def emit_def example_mounted_eq example_props_def ids_set_def trim_def js_def
      is_js_whitespace_def stop_timers_def Let_def)

section \<open>Typing start and the debounce\<close>

text \<open>
  C6, as the code has it: \<^verbatim>\<open>handleTyping\<close> issues the typing-start command exactly when
  the new text is one code unit long (and the identifiers are there), whatever the input
  held before. Along a sequence of keystrokes the typing-start commands issued are as many
  as the keystrokes that leave a text of length one, and no typing-stop is issued; after
  the sequence exactly one typing-stop timer is pending, the one \<^verbatim>\<open>typingTimeoutRef\<close>
  holds, and its expiry issues exactly one typing-stop and leaves none pending.
\<close>

theorem handleTyping_debounce:
  "outbox (handleTyping cfg text s) = outbox s @
     (if length text = 1 \<and> ids_set cfg
      then [SendTypingStart (ride_rideId cfg) (userId cfg) User] else []) \<and>
   (ids_set cfg \<and> stop_timers_tracked s \<and> timers_fresh s \<and> texts \<noteq> [] \<longrightarrow>
      (let s' = run cfg s (map HandleTyping texts :: 'd event list) in
         outbox s' = outbox s @
           replicate (length (filter (\<lambda>t. length t = 1) texts))
             (SendTypingStart (ride_rideId cfg) (userId cfg) User) \<and>
         (\<exists>t. typingTimeoutRef s' = Some t \<and>
              stop_timers s' = [(t, TypingStopTimeout)] \<and>
              outbox (step cfg (TimerFire t) s') =
                outbox s' @ [SendTypingStop (ride_rideId cfg) (userId cfg) User] \<and>
              stop_timers (step cfg (TimerFire t) s') = [])))"
proof -
  have seq: "let s' = run cfg s (map HandleTyping texts :: 'd event list) in
         outbox s' = outbox s @
           replicate (length (filter (\<lambda>t. length t = 1) texts))
             (SendTypingStart (ride_rideId cfg) (userId cfg) User) \<and>
         (\<exists>t. typingTimeoutRef s' = Some t \<and>
              stop_timers s' = [(t, TypingStopTimeout)] \<and>
              outbox (step cfg (TimerFire t) s') =
                outbox s' @ [SendTypingStop (ride_rideId cfg) (userId cfg) User] \<and>
              stop_timers (step cfg (TimerFire t) s') = [])"
    if ids: "ids_set cfg" and tr: "stop_timers_tracked s" and fr: "timers_fresh s"
      and ne: "texts \<noteq> []"
  proof -
    from ne obtain ts x where texts: "texts = ts @ [x]"
      by (cases texts rule: rev_cases) auto
    define s1 where "s1 = run cfg s (map HandleTyping ts :: 'd event list)"
    have s': "run cfg s (map HandleTyping texts :: 'd event list) = handleTyping cfg x s1"
      by (simp add: texts run_append s1_def)
    from typing_run_invariants [OF tr fr, of cfg ts, where ?'d = 'd]
    have tr1: "stop_timers_tracked s1" and fr1: "timers_fresh s1"
      by (simp_all add: s1_def)
    have ref: "typingTimeoutRef (handleTyping cfg x s1) = Some (nextTimerId s1)"
      by (simp add: handleTyping_eq)
    note st = stop_timers_handleTyping [OF tr1, of cfg x]
    note mp = map_of_handleTyping [OF fr1, of cfg x]
    note fire = fire_stop_timer [OF ids mp st]
    from ref st fire outbox_typing_run [OF ids, of s texts, where ?'d = 'd] show ?thesis
      by (simp add: s' Let_def)
  qed
  then show ?thesis
    by (simp only: outbox_handleTyping) blast
qed

theorem handleTyping_debounce_witness:
  "ids_set example_props \<and> stop_timers_tracked example_mounted \<and> timers_fresh example_mounted \<and>
   outbox (run example_props example_mounted
     (map HandleTyping [js ''h'', js ''hi'', js ''hi!''] :: unit event list))
     = [GetChatHistory (js ''r1'') (js ''u1'') User,
        SendTypingStart (js ''r1'') (js ''u1'') User] \<and>
   (\<exists>t. typingTimeoutRef (run example_props example_mounted
           (map HandleTyping [js ''h'', js ''hi'', js ''hi!''] :: unit event list)) = Some t \<and>
        outbox (step example_props (TimerFire t :: unit event) (run example_props example_mounted
           (map HandleTyping [js ''h'', js ''hi'', js ''hi!''] :: unit event list)))
          = [GetChatHistory (js ''r1'') (js ''u1'') User,
             SendTypingStart (js ''r1'') (js ''u1'') User,
             SendTypingStop (js ''r1'') (js ''u1'') User])"
proof -
  define texts where "texts = [js ''h'', js ''hi'', js ''hi!'']"
  define s' where "s' = run example_props example_mounted (map HandleTyping texts :: unit event list)"
  have a: "ids_set example_props"
    by (simp add: example_props_def ids_set_def js_def)
  have b: "stop_timers_tracked example_mounted"
    by (simp add: stop_timers_tracked_def example_mounted_eq)
  have c: "timers_fresh example_mounted"
    by (simp add: timers_fresh_def example_mounted_eq)
  have d: "texts \<noteq> []"
    by (simp add: texts_def)
  from handleTyping_debounce [of example_props "[]" example_mounted texts, where ?'d = unit] a b c d
  have ob: "outbox s' = outbox example_mounted @
           replicate (length (filter (\<lambda>t. length t = 1) texts))
             (SendTypingStart (ride_rideId example_props) (userId example_props) User)"
    and ex: "\<exists>t. typingTimeoutRef s' = Some t \<and>
              stop_timers s' = [(t, TypingStopTimeout)] \<and>
              outbox (step example_props (TimerFire t :: unit event) s') =
                outbox s' @ [SendTypingStop (ride_rideId example_props) (userId example_props) User] \<and>
              stop_timers (step example_props (TimerFire t :: unit event) s') = []"
    unfolding s'_def Let_def by blast+
  from ob have ob': "outbox s' = [GetChatHistory (js ''r1'') (js ''u1'') User,
        SendTypingStart (js ''r1'') (js ''u1'') User]"
    by (simp add: texts_def example_mounted_eq example_props_def js_def)
  from ex ob' have "\<exists>t. typingTimeoutRef s' = Some t \<and>
        outbox (step example_props (TimerFire t :: unit event) s')
          = [GetChatHistory (js ''r1'') (js ''u1'') User,
             SendTypingStart (js ''r1'') (js ''u1'') User,
             SendTypingStop (js ''r1'') (js ''u1'') User]"
    by (auto simp: example_props_def)
  with a b c ob' show ?thesis
    unfolding s'_def texts_def by blast
qed

text \<open>
  C6 as stated fails twice: text of five code units entering the empty input at once
  issues no typing-start; and the keystrokes "a", "ab", "a", which keep the input
  non-empty, issue two.
\<close>

theorem typing_start_not_on_empty_to_nonempty:
  "newMessage example_mounted = [] \<and>
   newMessage (handleTyping example_props (js ''hello'') example_mounted) = js ''hello'' \<and>
   outbox (handleTyping example_props (js ''hello'') example_mounted) = outbox example_mounted \<and>
   map newMessage
     [run example_props example_mounted [HandleTyping (js ''a'') :: unit event],
      run example_props example_mounted [HandleTyping (js ''a''), HandleTyping (js ''ab'') :: unit event],
      run example_props example_mounted
        [HandleTyping (js ''a''), HandleTyping (js ''ab''), HandleTyping (js ''a'') :: unit event]]
     = [js ''a'', js ''ab'', js ''a''] \<and>
   outbox (run example_props example_mounted
     [HandleTyping (js ''a''), HandleTyping (js ''ab''), HandleTyping (js ''a'') :: unit event])
     = outbox example_mounted @
       [SendTypingStart (js ''r1'') (js ''u1'') User, SendTypingStart (js ''r1'') (js ''u1'') User]"
  by (simp add: handleTyping_eq example_mounted_eq example_props_def ids_set_def js_def)

section \<open>The history timeout\<close>

text \<open>
  C4, as the code has it. After mounting, timer 1 is the history timeout. As long as no
  snapshot has arrived and the timer has not fired the component is loading, and the
  firing clears the flag; a cleared flag is never set again, and the timer fires at most
  once. When a snapshot arrived first, the firing changes nothing but the timer table.
  A snapshot, late or not, replaces the log with its list (it does not merge into the
  log), leaves the flag cleared, sets no timer and issues no command.
\<close>

theorem history_timeout_fallback:
  assumes "ids_set cfg"
  shows
    "(list_all (\<lambda>e. \<not> is_history e \<and> e \<noteq> TimerFire 1) evs \<longrightarrow>
        isLoading (run cfg (mount cfg) evs) \<and>
        \<not> isLoading (fireTimer cfg 1 (run cfg (mount cfg) evs))) \<and>
     (\<not> isLoading s \<longrightarrow> \<not> isLoading (run cfg s evs')) \<and>
     fireTimer cfg 1 (fireTimer cfg 1 s) = fireTimer cfg 1 s \<and>
     fireTimer cfg 1 (run cfg (mount cfg) (evs1 @ ChatHistoryEv d # evs2))
        = clearTimeout 1 (run cfg (mount cfg) (evs1 @ ChatHistoryEv d # evs2)) \<and>
     onChatHistory d s =
        s\<lparr>messages := (case d of Some (Some ms) \<Rightarrow> ms | _ \<Rightarrow> []), isLoading := False\<rparr>"
proof -
  note inv = mount_invariants [OF assms]
  have a: "isLoading (run cfg (mount cfg) evs) \<and>
        \<not> isLoading (fireTimer cfg 1 (run cfg (mount cfg) evs))"
    if "list_all (\<lambda>e. \<not> is_history e \<and> e \<noteq> TimerFire 1) evs"
  proof -
    from run_awaiting_history [OF inv(1) that]
    have aw: "awaiting_history 1 (run cfg (mount cfg) evs)" .
    then have "isLoading (run cfg (mount cfg) evs)" by (simp add: awaiting_history_def)
    with fire_awaiting_history [OF aw] show ?thesis by simp
  qed
  have b: "\<not> isLoading (run cfg s evs')" if "\<not> isLoading s"
    using that by (rule run_loading_cleared)
  define s1 where "s1 = run cfg (mount cfg) evs1"
  have split: "run cfg (mount cfg) (evs1 @ ChatHistoryEv d # evs2)
      = run cfg (onChatHistory d s1) evs2"
    by (simp add: run_append s1_def)
  have "\<not> isLoading (onChatHistory d s1)"
    by (simp add: onChatHistory_def split: option.splits)
  then have cleared: "\<not> isLoading (run cfg (mount cfg) (evs1 @ ChatHistoryEv d # evs2))"
    unfolding split by (rule run_loading_cleared)
  have "only_history_timer 1 (run cfg (mount cfg) (evs1 @ ChatHistoryEv d # evs2))"
    using inv(2) by (rule run_only_history_timer)
  then have c: "fireTimer cfg 1 (run cfg (mount cfg) (evs1 @ ChatHistoryEv d # evs2))
        = clearTimeout 1 (run cfg (mount cfg) (evs1 @ ChatHistoryEv d # evs2))"
    using cleared by (rule fire_after_snapshot)
  have e: "onChatHistory d s =
        s\<lparr>messages := (case d of Some (Some ms) \<Rightarrow> ms | _ \<Rightarrow> []), isLoading := False\<rparr>"
    by (simp add: onChatHistory_def split: option.splits)
  from a b c e fireTimer_twice [of cfg 1 s] show ?thesis by blast
qed

theorem history_timeout_fallback_witness:
  "ids_set example_props \<and>
   list_all (\<lambda>e. \<not> is_history e \<and> e \<noteq> TimerFire 1) example_events \<and>
   isLoading (run example_props example_mounted example_events) \<and>
   \<not> isLoading (fireTimer example_props 1 (run example_props example_mounted example_events)) \<and>
   \<not> isLoading (onChatHistory None example_mounted) \<and>
   \<not> isLoading (run example_props (onChatHistory None example_mounted) example_events)"
proof -
  have a: "ids_set example_props"
    by (simp add: example_props_def ids_set_def js_def)
  have b: "list_all (\<lambda>e. \<not> is_history e \<and> e \<noteq> TimerFire 1) example_events"
    by (simp add: example_events_def)
  have c: "\<not> isLoading (onChatHistory None example_mounted)"
    by (simp add: onChatHistory_def)
  from history_timeout_fallback [OF a, of example_events "onChatHistory None example_mounted"
      example_events] a b c
  show ?thesis unfolding example_mounted_def by blast
qed

text \<open>
  C4 as stated fails at "merges": after the timeout a message is pushed, and the late
  snapshot, which does not list it, removes it from the log.
\<close>

theorem late_snapshot_discards_log:
  "\<not> isLoading (run example_props example_mounted [TimerFire 1 :: unit event]) \<and>
   messages (run example_props example_mounted
      [TimerFire 1, ChatMessageEv example_driver_msg :: unit event]) = [example_driver_msg] \<and>
   messages (run example_props example_mounted
      [TimerFire 1, ChatMessageEv example_driver_msg,
       ChatHistoryEv (Some (Some [example_user_msg])) :: unit event]) = [example_user_msg] \<and>
   example_driver_msg \<notin> set [example_user_msg]"
  by (simp add: example_mounted_eq fireTimer_def clearTimeout_def messages_onChatMessage
      onChatHistory_def example_user_msg_def example_driver_msg_def js_def)

end
